theory Spec2Isabelle
  imports Main "HOL-Library.Word"
begin

section \<open>The secure monitor core of lib/sm/sm.c\<close>

text \<open>
  A shallow embedding of \<^verbatim>\<open>src/lib/sm/sm.c\<close>. The file-scope statics of the C file
  are the fields of one record, and its functions are functions on that record; only
  \<^verbatim>\<open>sm_secondary_init\<close>, which allocates the monitor stack and programs coprocessor
  registers in assembly, touches none of the statics and is left out.
  The target is 32-bit ARM (the file programs coprocessor 15 with \<^verbatim>\<open>mrc\<close> and
  \<^verbatim>\<open>mcr\<close>), so \<^verbatim>\<open>int\<close>, \<^verbatim>\<open>long\<close>, \<^verbatim>\<open>size_t\<close>,
  \<^verbatim>\<open>vaddr_t\<close> and every pointer are 32-bit words, and arithmetic on them wraps.
  Signed values are read with \<^const>\<open>sint\<close>.

  Everything the file calls but does not define (the world-switch primitive, the mapper,
  threads, the mutex, critical sections, logging) is an event appended to a log kept in the
  state, in the order the C code makes the calls; what such a call returns is an argument of
  the model.
\<close>

subsection \<open>Types\<close>

type_synonym long = "32 word"
type_synonym c_int = "32 word"
type_synonym size_t = "32 word"
type_synonym vaddr_t = "32 word"

text \<open>
  Modelled from the spec: \<^verbatim>\<open>err.h\<close> is not among the sources. \<^verbatim>\<open>status_t\<close> is an
  integer there and \<^verbatim>\<open>NO_ERROR\<close> is its zero; the codes that sm.c names are kept symbolic
  and distinct, as the error taxonomy of the specification lists them. \<open>ERR_OTHER n\<close> is
  any other non-zero code, as \<^verbatim>\<open>kmap_contig\<close> may return one.
\<close>

datatype status_t =
    NO_ERROR
  | ERR_ALREADY_EXISTS
  | ERR_INVALID_ARGS
  | ERR_NOT_CONFIGURED
  | ERR_OTHER int

text \<open>
  The codes of \<^verbatim>\<open>lib/sm/sm_err.h\<close>, which is not among the sources either. They are
  values of type \<^verbatim>\<open>long\<close> and share the variable \<^verbatim>\<open>ret\<close> of the dispatch loop with
  whatever a service handler returns, so they stay words; their values are a parameter
  of the functions that use them.
\<close>

record sm_err_h =
  SM_ERR_INTERRUPTED :: long
  SM_ERR_UNEXPECTED_RESTART :: long
  SM_ERR_INTERLEAVED_SMC :: long
  SM_ERR_NOT_SUPPORTED :: long

text \<open>
  Modelled from the spec: \<^verbatim>\<open>enum handler_return\<close> is declared in a kernel header that
  is not among the sources. \<open>INT_NO_RESCHEDULE\<close> is what \<^verbatim>\<open>sm_handle_irq\<close> returns, the
  report that no reschedule is requested; the other value requests one.
\<close>

datatype handler_return = INT_NO_RESCHEDULE | INT_RESCHEDULE

text \<open>
  The calls sm.c makes to the rest of the system. \<open>'a\<close> is \<^verbatim>\<open>ts_args_t\<close>, the record
  of call arguments, whose declaration (\<^verbatim>\<open>lib/sm.h\<close>) is not among the sources.
  \<open>SchedNonsecure r\<close> is a call \<^verbatim>\<open>sm_sched_nonsecure(r)\<close>; \<open>TsHandler a\<close> is a
  call of the registered handler on the copied arguments \<open>a\<close>.
\<close>

datatype 'a event =
    EnterCritical
  | ExitCritical
  | ThreadYield
  | SchedNonsecure long
  | TsHandler 'a
  | Dprintf string
  | Tracef string "status_t list"
  | MutexAcquire
  | MutexRelease
  | KmapContig long long
  | Kunmap vaddr_t long
  | ThreadCreate
  | ThreadResume vaddr_t

text \<open>
  The statics of sm.c. A null pointer is the word 0; the function pointer
  \<^verbatim>\<open>ts_handler\<close> is \<open>None\<close> when null and \<open>Some h\<close> otherwise, \<open>h\<close> being what
  the handler returns for given arguments (what else a handler does is not code of this
  file). \<open>sm_platform_boot_args\<close> is the pair of
  \<^verbatim>\<open>sm_platform_boot_args[0]\<close> (physical address) and \<^verbatim>\<open>sm_platform_boot_args[1]\<close>
  (size), written by the platform. \<open>mem\<close> is the memory that the output pointers of
  \<^verbatim>\<open>sm_get_boot_args\<close> point into, one 32-bit cell per address. \<open>events\<close> is the log
  of calls made so far.
\<close>

record 'a sm_state =
  ts_handler :: "('a \<Rightarrow> long) option"
  sm_platform_boot_args :: "long \<times> long"
  boot_args :: vaddr_t
  boot_args_refcnt :: c_int
  nsthread :: vaddr_t
  mem :: "vaddr_t \<Rightarrow> 32 word"
  events :: "'a event list"

definition emit :: "'a event list \<Rightarrow> 'a sm_state \<Rightarrow> 'a sm_state" where
  "emit es s = s\<lparr>events := events s @ es\<rparr>"

text \<open>
  The statics as the C runtime initialises them (all zero), for the platform's boot
  arguments \<open>pb\<close> and a memory \<open>m\<close>.
\<close>

definition sm_static_init :: "long \<times> long \<Rightarrow> (vaddr_t \<Rightarrow> 32 word) \<Rightarrow> 'a sm_state" where
  "sm_static_init pb m =
     \<lparr>ts_handler = None, sm_platform_boot_args = pb, boot_args = 0,
      boot_args_refcnt = 0, nsthread = 0, mem = m, events = []\<rparr>"

subsection \<open>The log messages\<close>

definition msg_no_handler :: string where
  "msg_no_handler = ''No service handler registered!'' @ [CHR 0x0A]"

definition msg_map_error :: string where
  "msg_map_error = ''Error mapping boot parameter block: %d'' @ [CHR 0x0A]"

definition msg_no_thread :: string where
  "msg_no_thread = ''failed to create NS switcher thread!'' @ [CHR 0x0A]"

definition msg_not_owner :: string where
  "msg_not_owner =
     ''WARNING: caller does not own a reference to boot parameters'' @ [CHR 0x0A]"

definition msg_outstanding :: string where
  "msg_outstanding =
     ''WARNING: outstanding reference to boot argsat the end of initialzation!'' @ [CHR 0x0A]"

subsection \<open>The dispatch loop\<close>

text \<open>
  Lines 67 to 74 of sm.c, the last step of an iteration: the handler is called on the
  copied arguments if one is registered, and its result becomes \<^verbatim>\<open>ret\<close>; otherwise
  the fault is logged and \<^verbatim>\<open>ret\<close> is \<^verbatim>\<open>SM_ERR_NOT_SUPPORTED\<close>.
\<close>

definition dispatch_service_handler ::
  "sm_err_h \<Rightarrow> 'a \<Rightarrow> 'a sm_state \<Rightarrow> long \<times> 'a sm_state" where
  "dispatch_service_handler E args s =
     (case ts_handler s of
        Some h \<Rightarrow> (h args, emit [TsHandler args] s)
      | None \<Rightarrow> (SM_ERR_NOT_SUPPORTED E, emit [Dprintf msg_no_handler] s))"

text \<open>
  \<^verbatim>\<open>sm_wait_for_smcall\<close> never returns. The world-switch primitive is scripted: the list
  holds what its successive calls return, \<open>None\<close> for a null pointer and \<open>Some a\<close> for a
  pointer to arguments \<open>a\<close>. The loop runs one iteration per answer; when the script is
  used up the loop has entered the critical section, yielded and called the primitive,
  which has not returned, and the state at that moment is the result.
\<close>

fun sm_wait_for_smcall_loop ::
  "sm_err_h \<Rightarrow> long \<Rightarrow> 'a option list \<Rightarrow> 'a sm_state \<Rightarrow> 'a sm_state" where
  "sm_wait_for_smcall_loop E ret [] s =
     emit [EnterCritical, ThreadYield, SchedNonsecure ret] s"
| "sm_wait_for_smcall_loop E ret (None # script) s =
     sm_wait_for_smcall_loop E (SM_ERR_UNEXPECTED_RESTART E) script
       (emit [EnterCritical, ThreadYield, SchedNonsecure ret, ExitCritical] s)"
| "sm_wait_for_smcall_loop E ret (Some args # script) s =
     (let s1 = emit [EnterCritical, ThreadYield, SchedNonsecure ret, ExitCritical] s;
          (ret', s2) = dispatch_service_handler E args s1
      in sm_wait_for_smcall_loop E ret' script s2)"

definition sm_wait_for_smcall ::
  "sm_err_h \<Rightarrow> 'a option list \<Rightarrow> 'a sm_state \<Rightarrow> 'a sm_state" where
  "sm_wait_for_smcall E script s = sm_wait_for_smcall_loop E 0 script s"

text \<open>
  How deep a log ends inside critical sections: the calls of
  \<^verbatim>\<open>enter_critical_section\<close> in it minus the calls of \<^verbatim>\<open>exit_critical_section\<close>.
\<close>

fun critical_depth :: "'a event list \<Rightarrow> int" where
  "critical_depth [] = 0"
| "critical_depth (EnterCritical # es) = critical_depth es + 1"
| "critical_depth (ExitCritical # es) = critical_depth es - 1"
| "critical_depth (e # es) = critical_depth es"

subsection \<open>Initialisation\<close>

text \<open>
  \<^verbatim>\<open>sm_init\<close>. \<open>kmap_contig pa sz\<close> is what the mapper answers for the physical range:
  its status and the address it stored through the pointer to \<^verbatim>\<open>boot_args\<close> (the
  flags and the page size it is given are constants of headers that are not among the
  sources). \<open>thread_create\<close> is the pointer that \<^verbatim>\<open>thread_create\<close> returns. When that
  is null the fault is printed and the system halts: \<^verbatim>\<open>halt()\<close> does not return, and
  the result is the error \<open>Halted\<close> with the message printed.
\<close>

datatype error = Halted string

definition sm_init ::
  "(long \<Rightarrow> long \<Rightarrow> status_t \<times> vaddr_t) \<Rightarrow> vaddr_t \<Rightarrow> 'a sm_state \<Rightarrow> error + 'a sm_state" where
  "sm_init kmap_contig thread_create s =
     (let s1 = emit [MutexAcquire] s;
          (pa, sz) = sm_platform_boot_args s1;
          s2 = (if pa \<noteq> 0 \<and> sz \<noteq> 0 then
                  (let (err, va) = kmap_contig pa sz;
                       s' = (emit [KmapContig pa sz] s1)\<lparr>boot_args := va\<rparr>
                   in if err = NO_ERROR
                      then s'\<lparr>boot_args_refcnt := boot_args_refcnt s' + 1\<rparr>
                      else emit [Tracef msg_map_error [err]] (s'\<lparr>boot_args := 0\<rparr>))
                else s1);
          s3 = emit [MutexRelease] s2;
          s4 = (emit [ThreadCreate] s3)\<lparr>nsthread := thread_create\<rparr>
      in if nsthread s4 = 0
         then Inl (Halted msg_no_thread)
         else Inr s4)"

subsection \<open>The handler registry\<close>

text \<open>\<^verbatim>\<open>sm_register_trusted_service_handler\<close>; \<open>fn\<close> may be null (\<open>None\<close>).\<close>

definition sm_register_trusted_service_handler ::
  "('a \<Rightarrow> long) option \<Rightarrow> 'a sm_state \<Rightarrow> status_t \<times> 'a sm_state" where
  "sm_register_trusted_service_handler fn s =
     (if ts_handler s \<noteq> None then (ERR_ALREADY_EXISTS, s)
      else (NO_ERROR,
            emit [ExitCritical] ((emit [EnterCritical] s)\<lparr>ts_handler := fn\<rparr>)))"

text \<open>A sequence of registration calls, with the status each one returns.\<close>

fun register_all ::
  "('a \<Rightarrow> long) option list \<Rightarrow> 'a sm_state \<Rightarrow> status_t list \<times> 'a sm_state" where
  "register_all [] s = ([], s)"
| "register_all (fn # fns) s =
     (let (r, s1) = sm_register_trusted_service_handler fn s;
          (rs, s2) = register_all fns s1
      in (r # rs, s2))"

subsection \<open>Interrupts during a switch\<close>

text \<open>
  \<^verbatim>\<open>sm_handle_irq\<close>, with the primitive scripted as for the dispatch loop. The while
  loop runs as long as the primitive returns a pointer. The result is \<open>None\<close> when the
  script is used up before the primitive has returned null: the routine is then still
  inside a call of the primitive and has not returned.
\<close>

fun sm_handle_irq_loop ::
  "sm_err_h \<Rightarrow> 'a option \<Rightarrow> 'a option list \<Rightarrow> 'a sm_state
     \<Rightarrow> handler_return option \<times> 'a sm_state" where
  "sm_handle_irq_loop E None script s = (Some INT_NO_RESCHEDULE, s)"
| "sm_handle_irq_loop E (Some a) [] s =
     (None, emit [SchedNonsecure (SM_ERR_INTERLEAVED_SMC E)] s)"
| "sm_handle_irq_loop E (Some a) (args # script) s =
     sm_handle_irq_loop E args script (emit [SchedNonsecure (SM_ERR_INTERLEAVED_SMC E)] s)"

fun sm_handle_irq ::
  "sm_err_h \<Rightarrow> 'a option list \<Rightarrow> 'a sm_state \<Rightarrow> handler_return option \<times> 'a sm_state" where
  "sm_handle_irq E [] s = (None, emit [SchedNonsecure (SM_ERR_INTERRUPTED E)] s)"
| "sm_handle_irq E (args # script) s =
     sm_handle_irq_loop E args script (emit [SchedNonsecure (SM_ERR_INTERRUPTED E)] s)"

subsection \<open>The boot arguments\<close>

text \<open>
  \<^verbatim>\<open>sm_get_boot_args\<close>. The two output pointers are addresses of \<open>mem\<close>; the view
  pointer is stored first and the size second, as in the C code.
\<close>

definition sm_get_boot_args ::
  "vaddr_t \<Rightarrow> vaddr_t \<Rightarrow> 'a sm_state \<Rightarrow> status_t \<times> 'a sm_state" where
  "sm_get_boot_args boot_argsp args_sizep s =
     (if boot_argsp = 0 \<or> args_sizep = 0 then (ERR_INVALID_ARGS, s)
      else
        (let s1 = emit [MutexAcquire] s in
         if boot_args s1 = 0 then (ERR_NOT_CONFIGURED, emit [MutexRelease] s1)
         else
           (let s2 = s1\<lparr>boot_args_refcnt := boot_args_refcnt s1 + 1\<rparr>;
                s3 = s2\<lparr>mem := (mem s2)(boot_argsp := boot_args s2)\<rparr>;
                s4 = s3\<lparr>mem := (mem s3)(args_sizep := snd (sm_platform_boot_args s3))\<rparr>
            in (NO_ERROR, emit [MutexRelease] s4))))"

text \<open>\<^verbatim>\<open>sm_put_boot_args\<close>.\<close>

definition sm_put_boot_args :: "'a sm_state \<Rightarrow> 'a sm_state" where
  "sm_put_boot_args s =
     (let s1 = emit [MutexAcquire] s in
      if boot_args s1 = 0 then emit [MutexRelease] (emit [Tracef msg_not_owner []] s1)
      else
        (let s2 = s1\<lparr>boot_args_refcnt := boot_args_refcnt s1 - 1\<rparr> in
         if boot_args_refcnt s2 = 0 then
           (let s3 = emit [Kunmap (boot_args s2) (snd (sm_platform_boot_args s2))] s2;
                s4 = s3\<lparr>boot_args := 0\<rparr>;
                s5 = emit [ThreadResume (nsthread s4)] s4
            in emit [MutexRelease] s5)
         else emit [MutexRelease] s2))"

text \<open>\<^verbatim>\<open>sm_release_boot_args\<close>, the last init hook.\<close>

definition sm_release_boot_args :: "'a sm_state \<Rightarrow> 'a sm_state" where
  "sm_release_boot_args s =
     (let s1 = (if boot_args s \<noteq> 0 then sm_put_boot_args s
                else emit [ThreadResume (nsthread s)] s)
      in if boot_args s1 \<noteq> 0 then emit [Tracef msg_outstanding []] s1 else s1)"

text \<open>
  Callers of the boot-argument interface: a call of \<^verbatim>\<open>sm_get_boot_args\<close> with its two
  output pointers, or a call of \<^verbatim>\<open>sm_put_boot_args\<close>. \<open>run_boot_ops\<close> makes the calls
  of a list in order and collects what the calls of \<^verbatim>\<open>sm_get_boot_args\<close> return.
\<close>

datatype boot_op = Acquire vaddr_t vaddr_t | Release

fun run_boot_ops :: "boot_op list \<Rightarrow> 'a sm_state \<Rightarrow> status_t list \<times> 'a sm_state" where
  "run_boot_ops [] s = ([], s)"
| "run_boot_ops (Acquire bp sp # xs) s =
     (let (r, s1) = sm_get_boot_args bp sp s;
          (rs, s2) = run_boot_ops xs s1
      in (r # rs, s2))"
| "run_boot_ops (Release # xs) s = run_boot_ops xs (sm_put_boot_args s)"

text \<open>The number of \<^verbatim>\<open>kunmap\<close> calls in a log, and the number of acquire calls in a list.\<close>

fun is_kunmap :: "'a event \<Rightarrow> bool" where
  "is_kunmap (Kunmap va sz) = True"
| "is_kunmap e = False"

definition unmap_count :: "'a sm_state \<Rightarrow> nat" where
  "unmap_count s = length (filter is_kunmap (events s))"

fun is_acquire :: "boot_op \<Rightarrow> bool" where
  "is_acquire (Acquire bp sp) = True"
| "is_acquire Release = False"

text \<open>
  A sequence of calls made from the state \<open>s\<close> never overflows the count: no call of
  \<^verbatim>\<open>sm_get_boot_args\<close> in it increments the count when the count is the largest
  \<^verbatim>\<open>int\<close>, 2147483647.
\<close>

fun count_never_overflows :: "boot_op list \<Rightarrow> 'a sm_state \<Rightarrow> bool" where
  "count_never_overflows [] s = True"
| "count_never_overflows (Acquire bp sp # xs) s =
     ((bp = 0 \<or> sp = 0 \<or> boot_args s = 0 \<or> sint (boot_args_refcnt s) < 2147483647)
      \<and> count_never_overflows xs (snd (sm_get_boot_args bp sp s)))"
| "count_never_overflows (Release # xs) s = count_never_overflows xs (sm_put_boot_args s)"

text \<open>
  The invariant of the boot-argument view: the view pointer is non-null exactly when
  the reference count, a signed 32-bit integer, is greater than zero.
\<close>

definition view_inv :: "'a sm_state \<Rightarrow> bool" where
  "view_inv s = ((boot_args s \<noteq> 0) = (0 < sint (boot_args_refcnt s)))"

subsection \<open>Instances of the environment\<close>

text \<open>
  Concrete surroundings on which the theorems below are exercised: a memory of zeros, a
  mapper that maps every range at the address \<open>va\<close>, and sample values for the codes
  of \<^verbatim>\<open>sm_err.h\<close>.
\<close>

definition zero_mem :: "vaddr_t \<Rightarrow> 32 word" where
  "zero_mem a = 0"

definition kmap_at :: "vaddr_t \<Rightarrow> long \<Rightarrow> long \<Rightarrow> status_t \<times> vaddr_t" where
  "kmap_at va pa sz = (NO_ERROR, va)"

definition sm_err_example :: sm_err_h where
  "sm_err_example =
     \<lparr>SM_ERR_INTERRUPTED = - 3, SM_ERR_UNEXPECTED_RESTART = - 4,
      SM_ERR_INTERLEAVED_SMC = - 6, SM_ERR_NOT_SUPPORTED = - 8\<rparr>"

text \<open>
  The statics after \<^verbatim>\<open>sm_init\<close> has mapped the boot arguments \<open>(0x80000000, 0x1000)\<close>
  at \<open>0x70000000\<close> and created the thread \<open>0x5000\<close>.
\<close>

definition booted_example :: "long sm_state" where
  "booted_example =
     \<lparr>ts_handler = None, sm_platform_boot_args = (0x80000000, 0x1000),
      boot_args = 0x70000000, boot_args_refcnt = 1, nsthread = 0x5000, mem = zero_mem,
      events = [MutexAcquire, KmapContig 0x80000000 0x1000, MutexRelease, ThreadCreate]\<rparr>"

text \<open>
  The statics after \<^verbatim>\<open>sm_init\<close> has run with the boot arguments \<open>(0, 0x1000)\<close>, a
  null address, and created the thread \<open>0x5000\<close>.
\<close>

definition unconfigured_example :: "long sm_state" where
  "unconfigured_example =
     \<lparr>ts_handler = None, sm_platform_boot_args = (0, 0x1000),
      boot_args = 0, boot_args_refcnt = 0, nsthread = 0x5000, mem = zero_mem,
      events = [MutexAcquire, MutexRelease, ThreadCreate]\<rparr>"

section \<open>Properties\<close>

subsection \<open>The log\<close>

lemma events_emit: "events (emit es s) = events s @ es"
  by (simp add: emit_def)

lemma emit_emit: "emit es2 (emit es1 s) = emit (es1 @ es2) s"
  by (simp add: emit_def)

lemma emit_fields:
  "ts_handler (emit es s) = ts_handler s"
  "sm_platform_boot_args (emit es s) = sm_platform_boot_args s"
  "boot_args (emit es s) = boot_args s"
  "boot_args_refcnt (emit es s) = boot_args_refcnt s"
  "nsthread (emit es s) = nsthread s"
  "mem (emit es s) = mem s"
  by (simp_all add: emit_def)

lemma unmap_count_emit:
  "unmap_count (emit es s) = unmap_count s + length (filter is_kunmap es)"
  by (simp add: unmap_count_def emit_def)

subsection \<open>The handler registry\<close>

lemma register_all_registered:
  "ts_handler s = Some h \<Longrightarrow>
     register_all fns s = (replicate (length fns) ERR_ALREADY_EXISTS, s)"
  by (induction fns) (simp_all add: sm_register_trusted_service_handler_def)

lemma register_all_only_nulls:
  "ts_handler s = None \<Longrightarrow>
     fst (register_all (replicate k None) s) = replicate k NO_ERROR
     \<and> ts_handler (snd (register_all (replicate k None) s)) = None"
proof (induction k arbitrary: s)
  case 0
  then show ?case by simp
next
  case (Suc k)
  have "ts_handler (snd (sm_register_trusted_service_handler None s)) = None"
    using Suc.prems by (simp add: sm_register_trusted_service_handler_def emit_fields)
  from Suc.IH [OF this] Suc.prems show ?case
    by (simp add: sm_register_trusted_service_handler_def case_prod_beta)
qed

lemma register_all_nulls:
  "ts_handler s = None \<Longrightarrow>
     fst (register_all (replicate k None @ Some h # fns) s)
       = replicate (Suc k) NO_ERROR @ replicate (length fns) ERR_ALREADY_EXISTS
     \<and> ts_handler (snd (register_all (replicate k None @ Some h # fns) s)) = Some h"
proof (induction k arbitrary: s)
  case 0
  then show ?case
    by (simp add: sm_register_trusted_service_handler_def emit_fields
        register_all_registered [where h = h] case_prod_beta)
next
  case (Suc k)
  have "ts_handler (snd (sm_register_trusted_service_handler None s)) = None"
    using Suc.prems by (simp add: sm_register_trusted_service_handler_def emit_fields)
  from Suc.IH [OF this] Suc.prems show ?case
    by (simp add: sm_register_trusted_service_handler_def case_prod_beta)
qed

text \<open>
  Claim C1, as stated, fails: in the sequence of calls with a null handler, then
  \<open>id\<close>, then \<open>uminus\<close>, made on the initial statics, the first two calls both
  return \<open>NO_ERROR\<close>, and the second replaces what the first successful call stored
  (null) by \<open>id\<close>.
\<close>

theorem register_twice_succeeds:
  "fst (register_all [None, Some id, Some uminus]
          (sm_static_init (0, 0) zero_mem :: long sm_state))
     = [NO_ERROR, NO_ERROR, ERR_ALREADY_EXISTS]
   \<and> ts_handler (snd (register_all [None]
          (sm_static_init (0, 0) zero_mem :: long sm_state))) = None
   \<and> ts_handler (snd (register_all [None, Some id, Some uminus]
          (sm_static_init (0, 0) zero_mem :: long sm_state))) = Some id"
  by (simp add: sm_static_init_def sm_register_trusted_service_handler_def emit_def)

text \<open>
  Claim C1, amended. In every sequence of calls made while no handler is registered, the
  calls up to and including the first one that passes a non-null handler \<open>h\<close> return
  \<open>NO_ERROR\<close> (the \<open>k\<close> calls before it pass null and store nothing); every call
  after it returns \<open>ERR_ALREADY_EXISTS\<close>, whatever it passes; \<open>h\<close> is the handler
  stored at the end, and the dispatch step of the loop calls \<open>h\<close> and takes its
  result. A sequence of null handlers only returns \<open>NO_ERROR\<close> every time and leaves
  the registry empty.
\<close>

theorem register_first_handler_wins:
  assumes "ts_handler s = None"
  shows "fst (register_all (replicate k None @ Some h # fns) s)
       = replicate (Suc k) NO_ERROR @ replicate (length fns) ERR_ALREADY_EXISTS
    \<and> ts_handler (snd (register_all (replicate k None @ Some h # fns) s)) = Some h
    \<and> dispatch_service_handler E a (snd (register_all (replicate k None @ Some h # fns) s))
       = (h a, emit [TsHandler a] (snd (register_all (replicate k None @ Some h # fns) s)))
    \<and> fst (register_all (replicate k None) s) = replicate k NO_ERROR
    \<and> ts_handler (snd (register_all (replicate k None) s)) = None"
  using register_all_nulls [OF assms, of k h fns] register_all_only_nulls [OF assms, of k]
  by (simp add: dispatch_service_handler_def)

theorem register_first_handler_wins_witness:
  "ts_handler (sm_static_init (0, 0) zero_mem :: long sm_state) = None
   \<and> fst (register_all [None, Some id, Some uminus, None]
            (sm_static_init (0, 0) zero_mem :: long sm_state))
       = [NO_ERROR, NO_ERROR, ERR_ALREADY_EXISTS, ERR_ALREADY_EXISTS]
   \<and> fst (dispatch_service_handler sm_err_example 7
        (snd (register_all [None, Some id, Some uminus, None]
            (sm_static_init (0, 0) zero_mem :: long sm_state)))) = 7"
  using register_first_handler_wins
    [of "sm_static_init (0, 0) zero_mem :: long sm_state" 1 id "[Some uminus, None]"
        sm_err_example 7]
  by (simp add: sm_static_init_def)

text \<open>
  Claim C10. Registering a null handler while no handler is registered returns
  \<open>NO_ERROR\<close> and leaves the registry empty; a later call with a non-null handler
  \<open>h\<close> then returns \<open>NO_ERROR\<close> too and stores \<open>h\<close>. So two calls of one sequence
  can both succeed when the first passed a null handler.
\<close>

theorem register_null_then_handler:
  assumes "ts_handler s = None"
  shows "fst (sm_register_trusted_service_handler None s) = NO_ERROR
    \<and> ts_handler (snd (sm_register_trusted_service_handler None s)) = None
    \<and> fst (sm_register_trusted_service_handler (Some h)
             (snd (sm_register_trusted_service_handler None s))) = NO_ERROR
    \<and> ts_handler (snd (sm_register_trusted_service_handler (Some h)
             (snd (sm_register_trusted_service_handler None s)))) = Some h
    \<and> fst (register_all [None, Some h] s) = [NO_ERROR, NO_ERROR]"
  using assms
  by (simp add: sm_register_trusted_service_handler_def emit_fields)

theorem register_null_then_handler_witness:
  "ts_handler (sm_static_init (0, 0) zero_mem :: long sm_state) = None
   \<and> fst (sm_register_trusted_service_handler None
            (sm_static_init (0, 0) zero_mem :: long sm_state)) = NO_ERROR
   \<and> fst (register_all [None, Some id] (sm_static_init (0, 0) zero_mem :: long sm_state))
       = [NO_ERROR, NO_ERROR]"
  using register_null_then_handler [of "sm_static_init (0, 0) zero_mem :: long sm_state" id]
  by (simp add: sm_static_init_def)

subsection \<open>The boot arguments: single calls\<close>

text \<open>
  Claim C5. When \<^verbatim>\<open>sm_put_boot_args\<close> is called while no view is mapped, it takes the
  lock, logs the warning and releases the lock: the log grows by these three calls, none
  of them \<^verbatim>\<open>kunmap\<close>, the reference count is not decremented, and every other static
  and the memory are as before.
\<close>

theorem put_without_view:
  assumes "boot_args s = 0"
  shows "sm_put_boot_args s = emit [MutexAcquire, Tracef msg_not_owner [], MutexRelease] s
    \<and> boot_args_refcnt (sm_put_boot_args s) = boot_args_refcnt s
    \<and> boot_args (sm_put_boot_args s) = 0
    \<and> unmap_count (sm_put_boot_args s) = unmap_count s
    \<and> mem (sm_put_boot_args s) = mem s
    \<and> nsthread (sm_put_boot_args s) = nsthread s
    \<and> ts_handler (sm_put_boot_args s) = ts_handler s"
  using assms
  by (simp add: sm_put_boot_args_def emit_fields emit_emit unmap_count_emit)

theorem put_without_view_witness:
  "boot_args (sm_static_init (4096, 64) zero_mem :: long sm_state) = 0
   \<and> boot_args_refcnt (sm_put_boot_args (sm_static_init (4096, 64) zero_mem :: long sm_state)) = 0
   \<and> events (sm_put_boot_args (sm_static_init (4096, 64) zero_mem :: long sm_state))
       = [MutexAcquire, Tracef msg_not_owner [], MutexRelease]"
  using put_without_view [of "sm_static_init (4096, 64) zero_mem :: long sm_state"]
  by (simp add: sm_static_init_def emit_def)

subsection \<open>The boot arguments: what a call changes\<close>

lemma get_fields:
  "boot_args (snd (sm_get_boot_args bp sp s)) = boot_args s"
  "sm_platform_boot_args (snd (sm_get_boot_args bp sp s)) = sm_platform_boot_args s"
  "nsthread (snd (sm_get_boot_args bp sp s)) = nsthread s"
  "unmap_count (snd (sm_get_boot_args bp sp s)) = unmap_count s"
  by (simp_all add: sm_get_boot_args_def Let_def emit_def unmap_count_def)

lemma get_refcnt:
  "boot_args_refcnt (snd (sm_get_boot_args bp sp s)) =
     (if bp \<noteq> 0 \<and> sp \<noteq> 0 \<and> boot_args s \<noteq> 0 then boot_args_refcnt s + 1
      else boot_args_refcnt s)"
  by (simp add: sm_get_boot_args_def Let_def emit_fields)

lemma get_status:
  "fst (sm_get_boot_args bp sp s) = NO_ERROR \<longleftrightarrow> bp \<noteq> 0 \<and> sp \<noteq> 0 \<and> boot_args s \<noteq> 0"
  by (simp add: sm_get_boot_args_def Let_def emit_fields)

lemma put_mapped:
  "boot_args s \<noteq> 0 \<Longrightarrow>
     boot_args_refcnt (sm_put_boot_args s) = boot_args_refcnt s - 1
     \<and> boot_args (sm_put_boot_args s) = (if boot_args_refcnt s = 1 then 0 else boot_args s)
     \<and> unmap_count (sm_put_boot_args s)
        = (if boot_args_refcnt s = 1 then unmap_count s + 1 else unmap_count s)"
  by (simp add: sm_put_boot_args_def Let_def emit_def unmap_count_def)

lemma put_unmapped:
  "boot_args s = 0 \<Longrightarrow>
     boot_args_refcnt (sm_put_boot_args s) = boot_args_refcnt s
     \<and> boot_args (sm_put_boot_args s) = 0
     \<and> unmap_count (sm_put_boot_args s) = unmap_count s"
  by (simp add: sm_put_boot_args_def Let_def emit_def unmap_count_def)

lemma sint_succ: "sint (r :: 32 word) < 2147483647 \<Longrightarrow> sint (r + 1) = sint r + 1"
proof -
  assume a: "sint r < 2147483647"
  have lo: "- (2 ^ 31) \<le> sint r" using sint_ge [of r] by simp
  have "sint (r + 1) = signed_take_bit 31 (sint r + 1)"
    by (simp add: sint_word_ariths)
  also have "\<dots> = sint r + 1"
    using a lo by (intro signed_take_bit_int_eq_self) simp_all
  finally show ?thesis .
qed

lemma sint_pred: "0 < sint (r :: 32 word) \<Longrightarrow> sint (r - 1) = sint r - 1"
proof -
  assume a: "0 < sint r"
  have hi: "sint r < 2 ^ 31" using sint_lt [of r] by simp
  have "sint (r - 1) = signed_take_bit 31 (sint r - 1)"
    by (simp add: sint_word_ariths)
  also have "\<dots> = sint r - 1"
    using a hi by (intro signed_take_bit_int_eq_self) simp_all
  finally show ?thesis .
qed

lemma put_view_inv: "view_inv s \<Longrightarrow> view_inv (sm_put_boot_args s)"
proof (cases "boot_args s = 0")
  case True
  assume "view_inv s"
  with True put_unmapped [OF True] show ?thesis by (simp add: view_inv_def)
next
  case False
  assume inv: "view_inv s"
  with False have pos: "0 < sint (boot_args_refcnt s)" by (simp add: view_inv_def)
  have one: "boot_args_refcnt s = 1 \<longleftrightarrow> sint (boot_args_refcnt s) = 1"
    by (auto intro: signed_word_eqI)
  show ?thesis
    using put_mapped [OF False] sint_pred [OF pos] pos one False
    by (auto simp: view_inv_def)
qed


lemma get_view_inv:
  assumes "view_inv s"
    and "bp = 0 \<or> sp = 0 \<or> boot_args s = 0 \<or> sint (boot_args_refcnt s) < 2147483647"
  shows "view_inv (snd (sm_get_boot_args bp sp s))"
proof (cases "bp \<noteq> 0 \<and> sp \<noteq> 0 \<and> boot_args s \<noteq> 0")
  case True
  with assms(2) have lt: "sint (boot_args_refcnt s) < 2147483647" by auto
  show ?thesis using assms(1) True sint_succ [OF lt]
    by (auto simp: view_inv_def get_fields get_refcnt)
next
  case False
  then show ?thesis using assms(1)
    by (auto simp: view_inv_def get_fields get_refcnt)
qed

lemma run_boot_ops_append:
  "run_boot_ops (xs @ ys) s =
     (fst (run_boot_ops xs s) @ fst (run_boot_ops ys (snd (run_boot_ops xs s))),
      snd (run_boot_ops ys (snd (run_boot_ops xs s))))"
proof (induction xs arbitrary: s)
  case Nil
  show ?case by simp
next
  case (Cons x xs)
  show ?case by (cases x) (simp_all add: Cons.IH case_prod_beta)
qed

lemma init_fields:
  assumes "sm_init kmap_contig thread_create s0 = Inr s1"
  shows "boot_args s1 =
           (if fst (sm_platform_boot_args s0) \<noteq> 0 \<and> snd (sm_platform_boot_args s0) \<noteq> 0
            then (if fst (kmap_contig (fst (sm_platform_boot_args s0)) (snd (sm_platform_boot_args s0))) = NO_ERROR
                  then snd (kmap_contig (fst (sm_platform_boot_args s0)) (snd (sm_platform_boot_args s0)))
                  else 0)
            else boot_args s0)"
    and "boot_args_refcnt s1 =
           (if fst (sm_platform_boot_args s0) \<noteq> 0 \<and> snd (sm_platform_boot_args s0) \<noteq> 0
              \<and> fst (kmap_contig (fst (sm_platform_boot_args s0)) (snd (sm_platform_boot_args s0))) = NO_ERROR
            then boot_args_refcnt s0 + 1 else boot_args_refcnt s0)"
    and "unmap_count s1 = unmap_count s0"
    and "sm_platform_boot_args s1 = sm_platform_boot_args s0"
    and "nsthread s1 = thread_create" and "thread_create \<noteq> 0"
  using assms
  by (auto simp: sm_init_def Let_def case_prod_beta emit_def unmap_count_def split: if_splits)


lemma run_boot_ops_Acquire:
  "run_boot_ops (Acquire bp sp # xs) s =
     (fst (sm_get_boot_args bp sp s) # fst (run_boot_ops xs (snd (sm_get_boot_args bp sp s))),
      snd (run_boot_ops xs (snd (sm_get_boot_args bp sp s))))"
  by (simp add: case_prod_beta)

lemma acquires_succeeded:
  "boot_args s \<noteq> 0 \<Longrightarrow>
   fst (run_boot_ops (map (case_prod Acquire) ps) s) = replicate (length ps) NO_ERROR \<Longrightarrow>
   boot_args (snd (run_boot_ops (map (case_prod Acquire) ps) s)) = boot_args s
   \<and> boot_args_refcnt (snd (run_boot_ops (map (case_prod Acquire) ps) s))
       = boot_args_refcnt s + of_nat (length ps)
   \<and> unmap_count (snd (run_boot_ops (map (case_prod Acquire) ps) s)) = unmap_count s"
proof (induction ps arbitrary: s)
  case Nil
  show ?case by simp
next
  case (Cons p ps)
  obtain bp sp where p: "p = (bp, sp)" by (cases p)
  let ?s1 = "snd (sm_get_boot_args bp sp s)"
  from Cons.prems(2) p have ok: "fst (sm_get_boot_args bp sp s) = NO_ERROR"
    and rest: "fst (run_boot_ops (map (case_prod Acquire) ps) ?s1) = replicate (length ps) NO_ERROR"
    by (simp_all add: run_boot_ops_Acquire del: run_boot_ops.simps(2))
  from ok have valid: "bp \<noteq> 0 \<and> sp \<noteq> 0" by (simp add: get_status)
  have mapped: "boot_args ?s1 \<noteq> 0" using Cons.prems(1) by (simp add: get_fields)
  from Cons.IH [OF mapped rest] valid Cons.prems(1) p show ?case
    by (simp add: run_boot_ops_Acquire get_fields get_refcnt del: run_boot_ops.simps(2))
qed

lemma acquires_valid:
  "boot_args s \<noteq> 0 \<Longrightarrow> bp \<noteq> 0 \<Longrightarrow> sp \<noteq> 0 \<Longrightarrow>
   fst (run_boot_ops (replicate n (Acquire bp sp)) s) = replicate n NO_ERROR"
proof (induction n arbitrary: s)
  case 0
  show ?case by simp
next
  case (Suc n)
  have "boot_args (snd (sm_get_boot_args bp sp s)) \<noteq> 0"
    using Suc.prems(1) by (simp add: get_fields)
  from Suc.IH [OF this Suc.prems(2,3)] Suc.prems show ?case
    by (simp add: case_prod_beta get_status)
qed

lemma releases_unmapped:
  "boot_args s = 0 \<Longrightarrow>
   boot_args (snd (run_boot_ops (replicate k Release) s)) = 0
   \<and> unmap_count (snd (run_boot_ops (replicate k Release) s)) = unmap_count s"
proof (induction k arbitrary: s)
  case 0
  then show ?case by simp
next
  case (Suc k)
  from put_unmapped [OF Suc.prems] have "boot_args (sm_put_boot_args s) = 0"
    and "unmap_count (sm_put_boot_args s) = unmap_count s" by simp_all
  with Suc.IH [of "sm_put_boot_args s"] show ?case by simp
qed

lemma releases_keep:
  "boot_args s \<noteq> 0 \<Longrightarrow> k \<le> unat (boot_args_refcnt s - 1) \<Longrightarrow>
   boot_args (snd (run_boot_ops (replicate k Release) s)) = boot_args s
   \<and> boot_args_refcnt (snd (run_boot_ops (replicate k Release) s))
       = boot_args_refcnt s - of_nat k
   \<and> unmap_count (snd (run_boot_ops (replicate k Release) s)) = unmap_count s"
proof (induction k arbitrary: s)
  case 0
  then show ?case by simp
next
  case (Suc k)
  from Suc.prems(2) have nz: "boot_args_refcnt s - 1 \<noteq> 0" by auto
  then have ne1: "boot_args_refcnt s \<noteq> 1" by auto
  from put_mapped [OF Suc.prems(1)] ne1
  have p: "boot_args_refcnt (sm_put_boot_args s) = boot_args_refcnt s - 1"
    "boot_args (sm_put_boot_args s) = boot_args s"
    "unmap_count (sm_put_boot_args s) = unmap_count s" by simp_all
  have "k \<le> unat (boot_args_refcnt (sm_put_boot_args s) - 1)"
    using Suc.prems(2) unat_minus_one [OF nz] by (simp add: p)
  from Suc.IH [OF _ this] p Suc.prems(1) show ?case by simp
qed

lemma releases_past:
  assumes "boot_args s \<noteq> 0" and "unat (boot_args_refcnt s - 1) < k"
  shows "boot_args (snd (run_boot_ops (replicate k Release) s)) = 0
   \<and> unmap_count (snd (run_boot_ops (replicate k Release) s)) = unmap_count s + 1"
proof -
  define m where "m = unat (boot_args_refcnt s - 1)"
  define j where "j = k - Suc m"
  have k: "replicate k Release = replicate m Release @ Release # replicate j Release"
    using assms(2) by (simp add: m_def j_def flip: replicate_Suc replicate_add)
  let ?s1 = "snd (run_boot_ops (replicate m Release) s)"
  from releases_keep [OF assms(1), of m]
  have s1: "boot_args ?s1 = boot_args s" "boot_args_refcnt ?s1 = boot_args_refcnt s - of_nat m"
    "unmap_count ?s1 = unmap_count s" by (simp_all add: m_def)
  have one: "boot_args_refcnt ?s1 = 1" unfolding s1 by (simp add: m_def)
  from put_mapped [of ?s1] assms(1) s1 one
  have s2: "boot_args (sm_put_boot_args ?s1) = 0"
    "unmap_count (sm_put_boot_args ?s1) = unmap_count s + 1" by simp_all
  from releases_unmapped [OF s2(1), of j] s2 show ?thesis
    by (simp add: k run_boot_ops_append)
qed


lemma init_view_inv:
  assumes "boot_args s0 = 0" and "boot_args_refcnt s0 = 0"
    and "kmap_contig (fst (sm_platform_boot_args s0)) (snd (sm_platform_boot_args s0))
           \<noteq> (NO_ERROR, 0)"
    and "sm_init kmap_contig thread_create s0 = Inr s1"
  shows "view_inv s1" and "sint (boot_args_refcnt s1) \<le> 1"
  using assms(1-3) init_fields(1,2) [OF assms(4)]
  by (auto simp: view_inv_def prod_eq_iff)

lemma run_view_inv:
  "view_inv s \<Longrightarrow> count_never_overflows ops s \<Longrightarrow> view_inv (snd (run_boot_ops ops s))"
proof (induction ops arbitrary: s)
  case Nil
  then show ?case by simp
next
  case (Cons x xs)
  show ?case
  proof (cases x)
    case (Acquire bp sp)
    have "view_inv (snd (sm_get_boot_args bp sp s))"
      using Cons.prems Acquire by (intro get_view_inv) simp_all
    from Cons.IH [OF this] Cons.prems(2) Acquire show ?thesis
      by (simp add: run_boot_ops_Acquire del: run_boot_ops.simps(2))
  next
    case Release
    from Cons.IH [OF put_view_inv [OF Cons.prems(1)]] Cons.prems(2) Release
    show ?thesis by simp
  qed
qed

lemma few_acquires_never_overflow:
  "view_inv s \<Longrightarrow> sint (boot_args_refcnt s) \<le> int k \<Longrightarrow>
   k + length (filter is_acquire ops) \<le> 2147483647 \<Longrightarrow>
   count_never_overflows ops s"
proof (induction ops arbitrary: s k)
  case Nil
  then show ?case by simp
next
  case (Cons x xs)
  show ?case
  proof (cases x)
    case (Acquire bp sp)
    have lt: "sint (boot_args_refcnt s) < 2147483647"
      using Cons.prems Acquire by simp
    have inv': "view_inv (snd (sm_get_boot_args bp sp s))"
      using Cons.prems(1) lt by (intro get_view_inv) simp_all
    have le': "sint (boot_args_refcnt (snd (sm_get_boot_args bp sp s))) \<le> int (Suc k)"
      using Cons.prems(2) sint_succ [OF lt] by (simp add: get_refcnt)
    have "count_never_overflows xs (snd (sm_get_boot_args bp sp s))"
      using Cons.IH [OF inv' le'] Cons.prems(3) Acquire by simp
    then show ?thesis using Acquire lt by simp
  next
    case Release
    have inv': "view_inv (sm_put_boot_args s)"
      using Cons.prems(1) by (rule put_view_inv)
    have le': "sint (boot_args_refcnt (sm_put_boot_args s)) \<le> int k"
    proof (cases "boot_args s = 0")
      case True
      then show ?thesis using Cons.prems(2) put_unmapped [OF True] by simp
    next
      case False
      with Cons.prems(1) have pos: "0 < sint (boot_args_refcnt s)" by (simp add: view_inv_def)
      show ?thesis using put_mapped [OF False] sint_pred [OF pos] Cons.prems(2) by simp
    qed
    show ?thesis using Cons.IH [OF inv' le'] Cons.prems(3) Release by simp
  qed
qed

lemma put_nsthread: "nsthread (sm_put_boot_args s) = nsthread s"
  by (simp add: sm_put_boot_args_def Let_def emit_def)

lemma run_unmapped:
  "boot_args s = 0 \<Longrightarrow>
   boot_args (snd (run_boot_ops ops s)) = 0
   \<and> unmap_count (snd (run_boot_ops ops s)) = unmap_count s
   \<and> nsthread (snd (run_boot_ops ops s)) = nsthread s"
proof (induction ops arbitrary: s)
  case Nil
  then show ?case by simp
next
  case (Cons x xs)
  show ?case
  proof (cases x)
    case (Acquire bp sp)
    have "boot_args (snd (sm_get_boot_args bp sp s)) = 0"
      using Cons.prems by (simp add: get_fields)
    from Cons.IH [OF this] Acquire show ?thesis
      by (simp add: run_boot_ops_Acquire get_fields del: run_boot_ops.simps(2))
  next
    case Release
    from put_unmapped [OF Cons.prems] have "boot_args (sm_put_boot_args s) = 0"
      and "unmap_count (sm_put_boot_args s) = unmap_count s" by simp_all
    with Cons.IH [of "sm_put_boot_args s"] Release show ?thesis
      by (simp add: put_nsthread)
  qed
qed

subsection \<open>The boot arguments: the view and its count\<close>

text \<open>
  Claim C4, as stated, fails in its last part: the count is a 32-bit \<^verbatim>\<open>int\<close>. After
  \<^verbatim>\<open>sm_init\<close> has mapped a view and 2147483646 calls of \<^verbatim>\<open>sm_get_boot_args\<close> have
  succeeded, the count is 2147483647; one more call, with two non-null pointers, returns
  \<open>NO_ERROR\<close> and leaves the count at \<open>- 2147483648\<close>, which is not the old count plus
  one.
\<close>

theorem get_at_int_max_wraps:
  "fst (run_boot_ops (replicate 2147483646 (Acquire 4 8)) booted_example)
       = replicate 2147483646 NO_ERROR
   \<and> boot_args (snd (run_boot_ops (replicate 2147483646 (Acquire 4 8)) booted_example))
       = 0x70000000
   \<and> sint (boot_args_refcnt
         (snd (run_boot_ops (replicate 2147483646 (Acquire 4 8)) booted_example)))
       = 2147483647
   \<and> fst (sm_get_boot_args 4 8
         (snd (run_boot_ops (replicate 2147483646 (Acquire 4 8)) booted_example)))
       = NO_ERROR
   \<and> sint (boot_args_refcnt (snd (sm_get_boot_args 4 8
         (snd (run_boot_ops (replicate 2147483646 (Acquire 4 8)) booted_example)))))
       = - 2147483648
   \<and> sint (boot_args_refcnt (snd (sm_get_boot_args 4 8
         (snd (run_boot_ops (replicate 2147483646 (Acquire 4 8)) booted_example)))))
       \<noteq> sint (boot_args_refcnt
         (snd (run_boot_ops (replicate 2147483646 (Acquire 4 8)) booted_example))) + 1"
proof -
  let ?n = "2147483646 :: nat"
  have b: "boot_args booted_example = 0x70000000" "boot_args_refcnt booted_example = 1"
    by (simp_all add: booted_example_def)
  have m: "boot_args booted_example \<noteq> 0" by (simp add: b)
  have r: "replicate ?n (Acquire 4 8) = map (case_prod Acquire) (replicate ?n (4, 8))"
    by simp
  have ok: "fst (run_boot_ops (replicate ?n (Acquire 4 8)) booted_example)
       = replicate ?n NO_ERROR"
    by (rule acquires_valid [OF m]) simp_all
  have ok': "fst (run_boot_ops (map (case_prod Acquire) (replicate ?n (4, 8))) booted_example)
       = replicate (length (replicate ?n (4 :: vaddr_t, 8 :: vaddr_t))) NO_ERROR"
    using ok unfolding r by simp
  let ?s = "snd (run_boot_ops (replicate ?n (Acquire 4 8)) booted_example)"
  from acquires_succeeded [OF m ok']
  have f: "boot_args ?s = 0x70000000" "boot_args_refcnt ?s = 2147483647"
    unfolding r by (simp_all add: b)
  have g: "fst (sm_get_boot_args 4 8 ?s) = NO_ERROR"
    by (simp add: get_status f)
  have c: "boot_args_refcnt (snd (sm_get_boot_args 4 8 ?s)) = 2147483647 + 1"
    by (simp add: get_refcnt f)
  show ?thesis using ok g unfolding c f by simp
qed

text \<open>
  Claim C4, amended. \<^verbatim>\<open>sm_get_boot_args\<close> returns \<open>ERR_INVALID_ARGS\<close> and leaves the
  whole state as it was when either output pointer is null. With two non-null pointers
  and no view it returns \<open>ERR_NOT_CONFIGURED\<close>, the count unchanged, having only taken
  and released the lock. With two non-null pointers and a view it returns \<open>NO_ERROR\<close>,
  memory holds the view pointer at the first address and then the boot-supplied size at
  the second, and the count has gone through the \<^verbatim>\<open>++\<close> of a 32-bit \<^verbatim>\<open>int\<close>: it is
  the old count plus one modulo \<open>2 ^ 32\<close>, which is the old count plus exactly one
  whenever the old count is below 2147483647.
\<close>

theorem get_boot_args_cases:
  "(boot_argsp = 0 \<or> args_sizep = 0 \<longrightarrow>
      sm_get_boot_args boot_argsp args_sizep s = (ERR_INVALID_ARGS, s))
   \<and> (boot_argsp \<noteq> 0 \<and> args_sizep \<noteq> 0 \<and> boot_args s = 0 \<longrightarrow>
      fst (sm_get_boot_args boot_argsp args_sizep s) = ERR_NOT_CONFIGURED
      \<and> boot_args_refcnt (snd (sm_get_boot_args boot_argsp args_sizep s)) = boot_args_refcnt s
      \<and> snd (sm_get_boot_args boot_argsp args_sizep s) = emit [MutexAcquire, MutexRelease] s)
   \<and> (boot_argsp \<noteq> 0 \<and> args_sizep \<noteq> 0 \<and> boot_args s \<noteq> 0 \<longrightarrow>
      fst (sm_get_boot_args boot_argsp args_sizep s) = NO_ERROR
      \<and> boot_args_refcnt (snd (sm_get_boot_args boot_argsp args_sizep s)) = boot_args_refcnt s + 1
      \<and> (sint (boot_args_refcnt s) < 2147483647 \<longrightarrow>
           sint (boot_args_refcnt (snd (sm_get_boot_args boot_argsp args_sizep s)))
             = sint (boot_args_refcnt s) + 1)
      \<and> mem (snd (sm_get_boot_args boot_argsp args_sizep s))
          = (mem s)(boot_argsp := boot_args s, args_sizep := snd (sm_platform_boot_args s))
      \<and> boot_args (snd (sm_get_boot_args boot_argsp args_sizep s)) = boot_args s
      \<and> sm_platform_boot_args (snd (sm_get_boot_args boot_argsp args_sizep s))
          = sm_platform_boot_args s
      \<and> events (snd (sm_get_boot_args boot_argsp args_sizep s))
          = events s @ [MutexAcquire, MutexRelease])"
proof -
  have signed: "sint (boot_args_refcnt s) < 2147483647 \<longrightarrow>
      sint (boot_args_refcnt s + 1) = sint (boot_args_refcnt s) + 1"
    by (simp add: sint_succ)
  show ?thesis using signed
    by (simp add: sm_get_boot_args_def Let_def emit_fields emit_emit events_emit)
qed

theorem get_boot_args_cases_witness:
  "sm_get_boot_args 0 8 booted_example = (ERR_INVALID_ARGS, booted_example)
   \<and> fst (sm_get_boot_args 4 8 (sm_static_init (0, 0) zero_mem :: long sm_state))
       = ERR_NOT_CONFIGURED
   \<and> fst (sm_get_boot_args 4 8 booted_example) = NO_ERROR
   \<and> boot_args_refcnt (snd (sm_get_boot_args 4 8 booted_example)) = 2
   \<and> sint (boot_args_refcnt booted_example) < 2147483647
   \<and> sint (boot_args_refcnt (snd (sm_get_boot_args 4 8 booted_example)))
       = sint (boot_args_refcnt booted_example) + 1
   \<and> mem (snd (sm_get_boot_args 4 8 booted_example)) 4 = 0x70000000
   \<and> mem (snd (sm_get_boot_args 4 8 booted_example)) 8 = 0x1000"
  using get_boot_args_cases [of 0 8 booted_example]
    get_boot_args_cases [of 4 8 "sm_static_init (0, 0) zero_mem :: long sm_state"]
    get_boot_args_cases [of 4 8 booted_example]
  by (simp add: booted_example_def sm_static_init_def)

text \<open>
  Claim C2, as stated, fails: \<^verbatim>\<open>boot_args_refcnt\<close> is a 32-bit \<^verbatim>\<open>int\<close> that
  \<^verbatim>\<open>sm_get_boot_args\<close> increments without a bound. After \<^verbatim>\<open>sm_init\<close> has mapped a
  view, 2147483647 successful calls of \<^verbatim>\<open>sm_get_boot_args\<close> take the count from 1 past
  the largest \<^verbatim>\<open>int\<close>: it reads \<open>- 2147483648\<close> while the view is still mapped.
\<close>

theorem refcnt_overflow_breaks_view_inv:
  "sm_init (kmap_at 0x70000000) 0x5000 (sm_static_init (0x80000000, 0x1000) zero_mem)
     = Inr booted_example
   \<and> fst (run_boot_ops (replicate 2147483647 (Acquire 4 8)) booted_example)
       = replicate 2147483647 NO_ERROR
   \<and> boot_args (snd (run_boot_ops (replicate 2147483647 (Acquire 4 8)) booted_example))
       = 0x70000000
   \<and> sint (boot_args_refcnt
         (snd (run_boot_ops (replicate 2147483647 (Acquire 4 8)) booted_example)))
       = - 2147483648
   \<and> \<not> view_inv (snd (run_boot_ops (replicate 2147483647 (Acquire 4 8)) booted_example))"
proof -
  have i: "sm_init (kmap_at 0x70000000) 0x5000 (sm_static_init (0x80000000, 0x1000) zero_mem)
     = Inr booted_example"
    by (simp add: sm_init_def sm_static_init_def kmap_at_def booted_example_def emit_def)
  have b: "boot_args booted_example = 0x70000000" "boot_args_refcnt booted_example = 1"
    by (simp_all add: booted_example_def)
  have m: "boot_args booted_example \<noteq> 0" by (simp add: b)
  have r: "replicate 2147483647 (Acquire 4 8)
      = map (case_prod Acquire) (replicate 2147483647 (4, 8))"
    by simp
  have ok: "fst (run_boot_ops (replicate 2147483647 (Acquire 4 8)) booted_example)
       = replicate 2147483647 NO_ERROR"
    by (rule acquires_valid [OF m]) simp_all
  have ok': "fst (run_boot_ops (map (case_prod Acquire) (replicate 2147483647 (4, 8)))
       booted_example) = replicate (length (replicate 2147483647 (4 :: vaddr_t, 8 :: vaddr_t))) NO_ERROR"
    using ok unfolding r by simp
  from acquires_succeeded [OF m ok']
  have f: "boot_args (snd (run_boot_ops (replicate 2147483647 (Acquire 4 8)) booted_example))
       = 0x70000000"
    "boot_args_refcnt (snd (run_boot_ops (replicate 2147483647 (Acquire 4 8)) booted_example))
       = 1 + of_nat 2147483647"
    unfolding r by (simp_all add: b)
  show ?thesis using i ok f by (simp add: view_inv_def)
qed

text \<open>
  Claim C2, amended. Let \<^verbatim>\<open>sm_init\<close> run once, on statics whose view pointer and count
  have their initial value zero, with a mapper that does not report success with a null
  address, and let it return. Then the invariant (view pointer non-null exactly when the
  count is greater than zero) holds before \<^verbatim>\<open>sm_init\<close>, after it, and after every
  sequence \<open>ops\<close> of acquire and release calls that never overflows the count; every
  sequence \<open>ops'\<close> with fewer than 2147483647 acquire calls is such a sequence.
  \<^verbatim>\<open>sm_put_boot_args\<close> preserves the invariant from every state, and
  \<^verbatim>\<open>sm_get_boot_args\<close> from every state in which it does not increment a count of
  2147483647.
\<close>

theorem view_inv_reachable:
  assumes "boot_args s0 = 0" and "boot_args_refcnt s0 = 0"
    and "kmap_contig (fst (sm_platform_boot_args s0)) (snd (sm_platform_boot_args s0))
           \<noteq> (NO_ERROR, 0)"
    and "sm_init kmap_contig thread_create s0 = Inr s1"
    and "count_never_overflows ops s1"
  shows "view_inv s0 \<and> view_inv s1 \<and> view_inv (snd (run_boot_ops ops s1))
    \<and> (length (filter is_acquire ops') < 2147483647 \<longrightarrow> count_never_overflows ops' s1)
    \<and> (view_inv s \<longrightarrow> view_inv (sm_put_boot_args s))
    \<and> (view_inv s
         \<and> (bp = 0 \<or> sp = 0 \<or> boot_args s = 0 \<or> sint (boot_args_refcnt s) < 2147483647) \<longrightarrow>
         view_inv (snd (sm_get_boot_args bp sp s)))"
proof -
  have "view_inv s0" using assms(1,2) by (simp add: view_inv_def)
  moreover note i = init_view_inv [OF assms(1-4)]
  moreover have "view_inv (snd (run_boot_ops ops s1))"
    using i(1) assms(5) by (rule run_view_inv)
  moreover have "length (filter is_acquire ops') < 2147483647 \<longrightarrow> count_never_overflows ops' s1"
    using i by (auto intro: few_acquires_never_overflow [where k = 1])
  ultimately show ?thesis
    using put_view_inv get_view_inv by blast
qed

theorem view_inv_reachable_witness:
  "sm_init (kmap_at 0x70000000) 0x5000 (sm_static_init (0x80000000, 0x1000) zero_mem)
     = Inr booted_example
   \<and> count_never_overflows [Acquire 4 8, Release, Release, Release, Acquire 4 8] booted_example
   \<and> view_inv booted_example
   \<and> view_inv (snd (run_boot_ops [Acquire 4 8, Release, Release, Release, Acquire 4 8]
        booted_example))
   \<and> view_inv (sm_put_boot_args booted_example)
   \<and> view_inv (snd (sm_get_boot_args 4 8 booted_example))"
proof -
  have i: "sm_init (kmap_at 0x70000000) 0x5000 (sm_static_init (0x80000000, 0x1000) zero_mem)
     = Inr booted_example"
    by (simp add: sm_init_def sm_static_init_def kmap_at_def booted_example_def emit_def)
  have v: "view_inv booted_example" by (simp add: view_inv_def booted_example_def)
  have b: "boot_args (sm_static_init (0x80000000, 0x1000) zero_mem :: long sm_state) = 0"
    "boot_args_refcnt (sm_static_init (0x80000000, 0x1000) zero_mem :: long sm_state) = 0"
    "kmap_at 0x70000000
       (fst (sm_platform_boot_args (sm_static_init (0x80000000, 0x1000) zero_mem :: long sm_state)))
       (snd (sm_platform_boot_args (sm_static_init (0x80000000, 0x1000) zero_mem :: long sm_state)))
     \<noteq> (NO_ERROR, 0)"
    by (simp_all add: sm_static_init_def kmap_at_def)
  have c: "count_never_overflows [Acquire 4 8, Release, Release, Release, Acquire 4 8]
      booted_example"
    by (simp add: booted_example_def sm_get_boot_args_def sm_put_boot_args_def Let_def emit_def)
  show ?thesis
    using i v c view_inv_reachable [OF b i c,
      of "[Acquire 4 8, Release, Release, Release, Acquire 4 8]" booted_example 4 8]
    by (simp add: booted_example_def)
qed

text \<open>
  Claim C3, as stated, fails for the same reason: after \<^verbatim>\<open>sm_init\<close> has mapped a view,
  4294967296 successful calls of \<^verbatim>\<open>sm_get_boot_args\<close> wrap the 32-bit count around to 1
  again, and the first release that follows unmaps the view, although 4294967296 acquired
  references are outstanding.
\<close>

theorem refcnt_wraps_to_one:
  "sm_init (kmap_at 0x70000000) 0x5000 (sm_static_init (0x80000000, 0x1000) zero_mem)
     = Inr booted_example
   \<and> fst (run_boot_ops (replicate 4294967296 (Acquire 4 8)) booted_example)
       = replicate 4294967296 NO_ERROR
   \<and> boot_args (snd (run_boot_ops (replicate 4294967296 (Acquire 4 8)) booted_example))
       = 0x70000000
   \<and> boot_args (snd (run_boot_ops (replicate 4294967296 (Acquire 4 8) @ [Release])
         booted_example)) = 0
   \<and> unmap_count (snd (run_boot_ops (replicate 4294967296 (Acquire 4 8) @ [Release])
         booted_example)) = 1"
proof -
  let ?n = "4294967296 :: nat"
  have i: "sm_init (kmap_at 0x70000000) 0x5000 (sm_static_init (0x80000000, 0x1000) zero_mem)
     = Inr booted_example"
    by (simp add: sm_init_def sm_static_init_def kmap_at_def booted_example_def emit_def)
  have b: "boot_args booted_example = 0x70000000" "boot_args_refcnt booted_example = 1"
    "unmap_count booted_example = 0"
    by (simp_all add: booted_example_def unmap_count_def)
  have m: "boot_args booted_example \<noteq> 0" by (simp add: b)
  have r: "replicate ?n (Acquire 4 8) = map (case_prod Acquire) (replicate ?n (4, 8))"
    by simp
  have ok: "fst (run_boot_ops (replicate ?n (Acquire 4 8)) booted_example)
       = replicate ?n NO_ERROR"
    by (rule acquires_valid [OF m]) simp_all
  have ok': "fst (run_boot_ops (map (case_prod Acquire) (replicate ?n (4, 8))) booted_example)
       = replicate (length (replicate ?n (4 :: vaddr_t, 8 :: vaddr_t))) NO_ERROR"
    using ok unfolding r by simp
  let ?s' = "snd (run_boot_ops (replicate ?n (Acquire 4 8)) booted_example)"
  from acquires_succeeded [OF m ok']
  have f: "boot_args ?s' = 0x70000000" "boot_args_refcnt ?s' = 1" "unmap_count ?s' = 0"
    unfolding r by (simp_all add: b)
  have m': "boot_args ?s' \<noteq> 0" by (simp add: f)
  from put_mapped [OF m'] f
  have "boot_args (sm_put_boot_args ?s') = 0" "unmap_count (sm_put_boot_args ?s') = 1"
    by simp_all
  then show ?thesis using i ok f by (simp add: run_boot_ops_append)
qed

text \<open>
  Claim C3, amended. Let \<^verbatim>\<open>sm_init\<close>, run on the initial statics, have mapped a view (the
  count is then 1), and let \<open>n\<close> calls of \<^verbatim>\<open>sm_get_boot_args\<close> follow that all return
  \<open>NO_ERROR\<close>, with \<open>1 \<le> n < 4294967296\<close> (the pointer pairs of the calls are \<open>ps\<close>,
  \<open>n = length ps\<close>). After \<open>k\<close> release calls the view is still mapped and
  \<^verbatim>\<open>kunmap\<close> has not been called as long as \<open>k \<le> n\<close>; for every \<open>k > n\<close>, that is once
  the \<open>n\<close> acquired references and the reference of \<^verbatim>\<open>sm_init\<close> are released, the view
  is unmapped and \<^verbatim>\<open>kunmap\<close> has been called exactly once, however many more release
  calls follow.
\<close>

theorem view_unmapped_once:
  assumes "boot_args s0 = 0" and "boot_args_refcnt s0 = 0"
    and "sm_init kmap_contig thread_create s0 = Inr s"
    and "boot_args s \<noteq> 0"
    and "1 \<le> length ps" and "length ps < 4294967296"
    and "fst (run_boot_ops (map (case_prod Acquire) ps) s) = replicate (length ps) NO_ERROR"
  shows "boot_args_refcnt s = 1
    \<and> (k \<le> length ps \<longrightarrow>
         boot_args (snd (run_boot_ops (map (case_prod Acquire) ps @ replicate k Release) s))
           = boot_args s
         \<and> unmap_count (snd (run_boot_ops (map (case_prod Acquire) ps @ replicate k Release) s))
           = unmap_count s0)
    \<and> (length ps < k \<longrightarrow>
         boot_args (snd (run_boot_ops (map (case_prod Acquire) ps @ replicate k Release) s)) = 0
         \<and> unmap_count (snd (run_boot_ops (map (case_prod Acquire) ps @ replicate k Release) s))
           = unmap_count s0 + 1)"
proof -
  let ?s' = "snd (run_boot_ops (map (case_prod Acquire) ps) s)"
  have one: "boot_args_refcnt s = 1"
    using init_fields(1,2) [OF assms(3)] assms(1,2,4) by (auto split: if_splits)
  have u: "unmap_count s = unmap_count s0" by (rule init_fields(3) [OF assms(3)])
  from acquires_succeeded [OF assms(4,7)]
  have s': "boot_args ?s' = boot_args s" "boot_args_refcnt ?s' = 1 + of_nat (length ps)"
    "unmap_count ?s' = unmap_count s0" by (simp_all add: one u)
  have m: "boot_args ?s' \<noteq> 0" using assms(4) by (simp add: s')
  have n: "unat (boot_args_refcnt ?s' - 1) = length ps"
    using assms(6) by (simp add: s' unat_of_nat)
  have keep: "k \<le> length ps \<Longrightarrow>
      boot_args (snd (run_boot_ops (replicate k Release) ?s')) = boot_args s
      \<and> unmap_count (snd (run_boot_ops (replicate k Release) ?s')) = unmap_count s0"
    using releases_keep [OF m, of k] unfolding n by (simp add: s')
  have past: "length ps < k \<Longrightarrow>
      boot_args (snd (run_boot_ops (replicate k Release) ?s')) = 0
      \<and> unmap_count (snd (run_boot_ops (replicate k Release) ?s')) = unmap_count s0 + 1"
    using releases_past [OF m, of k] unfolding n by (simp add: s')
  show ?thesis using one keep past by (simp add: run_boot_ops_append)
qed

theorem view_unmapped_once_witness:
  "sm_init (kmap_at 0x70000000) 0x5000 (sm_static_init (0x80000000, 0x1000) zero_mem)
     = Inr booted_example
   \<and> fst (run_boot_ops [Acquire 4 8, Acquire 12 16] booted_example) = [NO_ERROR, NO_ERROR]
   \<and> boot_args (snd (run_boot_ops [Acquire 4 8, Acquire 12 16, Release, Release]
        booted_example)) = 0x70000000
   \<and> unmap_count (snd (run_boot_ops [Acquire 4 8, Acquire 12 16, Release, Release]
        booted_example)) = 0
   \<and> boot_args (snd (run_boot_ops [Acquire 4 8, Acquire 12 16, Release, Release, Release]
        booted_example)) = 0
   \<and> unmap_count (snd (run_boot_ops [Acquire 4 8, Acquire 12 16, Release, Release, Release]
        booted_example)) = 1
   \<and> unmap_count (snd (run_boot_ops
        [Acquire 4 8, Acquire 12 16, Release, Release, Release, Release, Release]
        booted_example)) = 1"
proof -
  have i: "sm_init (kmap_at 0x70000000) 0x5000 (sm_static_init (0x80000000, 0x1000) zero_mem)
     = Inr booted_example"
    by (simp add: sm_init_def sm_static_init_def kmap_at_def booted_example_def emit_def)
  have ok: "fst (run_boot_ops (map (case_prod Acquire) [(4, 8), (12, 16)]) booted_example)
      = replicate (length [(4 :: vaddr_t, 8 :: vaddr_t), (12, 16)]) NO_ERROR"
    by (simp add: sm_get_boot_args_def booted_example_def emit_def Let_def)
  have b: "boot_args (sm_static_init (0x80000000, 0x1000) zero_mem :: long sm_state) = 0"
    "boot_args_refcnt (sm_static_init (0x80000000, 0x1000) zero_mem :: long sm_state) = 0"
    "unmap_count (sm_static_init (0x80000000, 0x1000) zero_mem :: long sm_state) = 0"
    "boot_args booted_example = 0x70000000"
    by (simp_all add: sm_static_init_def booted_example_def unmap_count_def)
  have m: "boot_args booted_example \<noteq> 0" by (simp add: b)
  have r: "replicate 2 Release = [Release, Release]"
    "replicate 3 Release = [Release, Release, Release]"
    "replicate 5 Release = [Release, Release, Release, Release, Release]"
    by (simp_all add: numeral_eq_Suc)
  note w = view_unmapped_once [OF b(1,2) i m _ _ ok]
  show ?thesis
    using i ok w [of 2] w [of 3] w [of 5]
    by (simp add: b r del: run_boot_ops.simps)
qed

text \<open>
  Claim C6. Let the platform have supplied a null address or a zero size, and let
  \<^verbatim>\<open>sm_init\<close> run on statics whose view pointer is null and return. Then \<^verbatim>\<open>sm_init\<close>
  has only taken and released the lock and created the thread (the mapper is not
  called) and the view pointer is null; it is null after every sequence \<open>ops\<close> of acquire
  and release calls, so a call of \<^verbatim>\<open>sm_get_boot_args\<close> with two non-null pointers made
  after any such sequence returns \<open>ERR_NOT_CONFIGURED\<close>; and \<^verbatim>\<open>sm_release_boot_args\<close>
  only resumes the thread that \<^verbatim>\<open>sm_init\<close> created: \<^verbatim>\<open>kunmap\<close> has been called as often
  as before \<^verbatim>\<open>sm_init\<close>.
\<close>

theorem no_boot_args_supplied:
  assumes "boot_args s0 = 0"
    and "fst (sm_platform_boot_args s0) = 0 \<or> snd (sm_platform_boot_args s0) = 0"
    and "sm_init kmap_contig thread_create s0 = Inr s1"
  shows "events s1 = events s0 @ [MutexAcquire, MutexRelease, ThreadCreate]
    \<and> boot_args s1 = 0
    \<and> boot_args (snd (run_boot_ops ops s1)) = 0
    \<and> (bp \<noteq> 0 \<and> sp \<noteq> 0 \<longrightarrow>
         fst (sm_get_boot_args bp sp (snd (run_boot_ops ops s1))) = ERR_NOT_CONFIGURED)
    \<and> sm_release_boot_args (snd (run_boot_ops ops s1))
        = emit [ThreadResume thread_create] (snd (run_boot_ops ops s1))
    \<and> unmap_count (sm_release_boot_args (snd (run_boot_ops ops s1))) = unmap_count s0"
proof -
  have ev: "events s1 = events s0 @ [MutexAcquire, MutexRelease, ThreadCreate]"
    using assms
    by (auto simp: sm_init_def Let_def case_prod_beta emit_def split: if_splits)
  have z: "boot_args s1 = 0"
    using init_fields(1) [OF assms(3)] assms(1,2) by auto
  have f: "unmap_count s1 = unmap_count s0" "nsthread s1 = thread_create"
    using init_fields(3,5) [OF assms(3)] by simp_all
  let ?t = "snd (run_boot_ops ops s1)"
  from run_unmapped [OF z, of ops] f
  have t: "boot_args ?t = 0" "unmap_count ?t = unmap_count s0" "nsthread ?t = thread_create"
    by simp_all
  have g: "bp \<noteq> 0 \<and> sp \<noteq> 0 \<longrightarrow> fst (sm_get_boot_args bp sp ?t) = ERR_NOT_CONFIGURED"
    using t(1) by (simp add: sm_get_boot_args_def Let_def emit_fields)
  have r: "sm_release_boot_args ?t = emit [ThreadResume thread_create] ?t"
    using t by (simp add: sm_release_boot_args_def Let_def emit_fields)
  show ?thesis using ev z t g r by (simp add: unmap_count_emit)
qed

theorem no_boot_args_supplied_witness:
  "sm_init (kmap_at 0x70000000) 0x5000 (sm_static_init (0, 0x1000) zero_mem)
     = Inr unconfigured_example
   \<and> fst (run_boot_ops [Acquire 4 8, Release] unconfigured_example) = [ERR_NOT_CONFIGURED]
   \<and> fst (sm_get_boot_args 4 8 (snd (run_boot_ops [Acquire 4 8, Release] unconfigured_example)))
       = ERR_NOT_CONFIGURED
   \<and> events (sm_release_boot_args (snd (run_boot_ops [Acquire 4 8, Release]
        unconfigured_example)))
       = [MutexAcquire, MutexRelease, ThreadCreate,
          MutexAcquire, MutexRelease,
          MutexAcquire, Tracef msg_not_owner [], MutexRelease,
          ThreadResume 0x5000]"
proof -
  let ?s0 = "sm_static_init (0, 0x1000) zero_mem :: long sm_state"
  have i: "sm_init (kmap_at 0x70000000) 0x5000 ?s0 = Inr unconfigured_example"
    by (simp add: sm_init_def sm_static_init_def emit_def unconfigured_example_def)
  have b: "boot_args ?s0 = 0"
    "fst (sm_platform_boot_args ?s0) = 0 \<or> snd (sm_platform_boot_args ?s0) = 0"
    by (simp_all add: sm_static_init_def)
  note w = no_boot_args_supplied [OF b i, of "[Acquire 4 8, Release]" 4 8]
  show ?thesis using i w
    by (simp add: sm_get_boot_args_def sm_put_boot_args_def sm_release_boot_args_def
        Let_def emit_def unconfigured_example_def)
qed

subsection \<open>The dispatch loop and the interrupt routine\<close>

text \<open>
  Claim C7. With no handler registered and a primitive that returns null on its first
  call and arguments \<open>a\<close> on its second, the dispatch step yields
  \<open>SM_ERR_NOT_SUPPORTED\<close>; the loop calls the primitive with 0, then with
  \<open>SM_ERR_UNEXPECTED_RESTART\<close> (recorded by the first iteration), then with
  \<open>SM_ERR_NOT_SUPPORTED\<close> (yielded by the second). Whatever the script holds after
  the two answers, the loop goes on from there with \<open>SM_ERR_NOT_SUPPORTED\<close> as the
  pending result.
\<close>

theorem dispatch_without_handler:
  "fst (dispatch_service_handler E a (s\<lparr>ts_handler := None\<rparr>)) = SM_ERR_NOT_SUPPORTED E
   \<and> events (sm_wait_for_smcall E [None, Some a] (s\<lparr>ts_handler := None\<rparr>))
       = events s @
         [EnterCritical, ThreadYield, SchedNonsecure 0, ExitCritical,
          EnterCritical, ThreadYield, SchedNonsecure (SM_ERR_UNEXPECTED_RESTART E), ExitCritical,
          Dprintf msg_no_handler,
          EnterCritical, ThreadYield, SchedNonsecure (SM_ERR_NOT_SUPPORTED E)]
   \<and> sm_wait_for_smcall E (None # Some a # rest) (s\<lparr>ts_handler := None\<rparr>)
       = sm_wait_for_smcall_loop E (SM_ERR_NOT_SUPPORTED E) rest
           (emit [EnterCritical, ThreadYield, SchedNonsecure 0, ExitCritical,
                  EnterCritical, ThreadYield, SchedNonsecure (SM_ERR_UNEXPECTED_RESTART E),
                  ExitCritical, Dprintf msg_no_handler] (s\<lparr>ts_handler := None\<rparr>))"
  by (simp add: sm_wait_for_smcall_def dispatch_service_handler_def emit_fields emit_emit
      events_emit)

lemma irq_loop_drains:
  "sm_handle_irq_loop E r (map Some as @ None # rest) s =
     (Some INT_NO_RESCHEDULE,
      emit (replicate (length (case r of None \<Rightarrow> [] | Some a \<Rightarrow> a # as))
              (SchedNonsecure (SM_ERR_INTERLEAVED_SMC E))) s)"
proof (induction as arbitrary: r s)
  case Nil
  show ?case by (cases r) (simp_all add: emit_def)
next
  case (Cons a as)
  show ?case
  proof (cases r)
    case None
    then show ?thesis by (simp add: emit_def)
  next
    case (Some b)
    then show ?thesis
      by (simp add: Cons.IH [of "Some a"] emit_emit flip: replicate_append_same)
  qed
qed

text \<open>
  Claim C8. When the primitive returns a pointer on its first two calls and null on the
  third, \<^verbatim>\<open>sm_handle_irq\<close> calls it exactly three times, first with
  \<open>SM_ERR_INTERRUPTED\<close> and then twice with \<open>SM_ERR_INTERLEAVED_SMC\<close>, makes no
  other call, and returns \<open>INT_NO_RESCHEDULE\<close>. In general, with pointers on the
  first \<open>length as\<close> calls and null on the next, it makes that many calls with
  \<open>SM_ERR_INTERLEAVED_SMC\<close> after the one with \<open>SM_ERR_INTERRUPTED\<close>.
\<close>

theorem irq_drains_two:
  "sm_handle_irq E (Some a # Some b # None # rest) s =
     (Some INT_NO_RESCHEDULE,
      emit [SchedNonsecure (SM_ERR_INTERRUPTED E), SchedNonsecure (SM_ERR_INTERLEAVED_SMC E),
            SchedNonsecure (SM_ERR_INTERLEAVED_SMC E)] s)
   \<and> sm_handle_irq E (map Some as @ None # rest) s =
     (Some INT_NO_RESCHEDULE,
      emit (SchedNonsecure (SM_ERR_INTERRUPTED E)
            # replicate (length as) (SchedNonsecure (SM_ERR_INTERLEAVED_SMC E))) s)"
proof
  show "sm_handle_irq E (Some a # Some b # None # rest) s =
     (Some INT_NO_RESCHEDULE,
      emit [SchedNonsecure (SM_ERR_INTERRUPTED E), SchedNonsecure (SM_ERR_INTERLEAVED_SMC E),
            SchedNonsecure (SM_ERR_INTERLEAVED_SMC E)] s)"
    by (simp add: emit_emit)
  show "sm_handle_irq E (map Some as @ None # rest) s =
     (Some INT_NO_RESCHEDULE,
      emit (SchedNonsecure (SM_ERR_INTERRUPTED E)
            # replicate (length as) (SchedNonsecure (SM_ERR_INTERLEAVED_SMC E))) s)"
  proof (cases as)
    case Nil
    then show ?thesis by simp
  next
    case (Cons c cs)
    then show ?thesis
      using irq_loop_drains [of E "Some c" cs rest]
      by (simp add: emit_emit)
  qed
qed

lemma loop_snoc_None:
  "sm_wait_for_smcall_loop E ret (pre @ [None]) s =
     emit [ExitCritical, EnterCritical, ThreadYield, SchedNonsecure (SM_ERR_UNEXPECTED_RESTART E)]
       (sm_wait_for_smcall_loop E ret pre s)"
proof (induction E ret pre s rule: sm_wait_for_smcall_loop.induct)
  case (1 E ret s)
  show ?case by (simp add: emit_emit)
next
  case (2 E ret script s)
  then show ?case by simp
next
  case (3 E ret args script s)
  then show ?case by (simp split: prod.splits)
qed

lemma critical_depth_append:
  "critical_depth (xs @ ys) = critical_depth xs + critical_depth ys"
  by (induction xs rule: critical_depth.induct) simp_all

lemma dispatch_depth:
  "critical_depth (events (snd (dispatch_service_handler E a s))) = critical_depth (events s)"
  by (simp add: dispatch_service_handler_def events_emit critical_depth_append
      split: option.splits)

lemma loop_blocks_inside:
  "critical_depth (events (sm_wait_for_smcall_loop E ret script s))
     = critical_depth (events s) + 1"
proof (induction script arbitrary: ret s)
  case Nil
  show ?case by (simp add: events_emit critical_depth_append)
next
  case (Cons r script)
  show ?case
  proof (cases r)
    case None
    then show ?thesis by (simp add: Cons.IH events_emit critical_depth_append)
  next
    case (Some args)
    then show ?thesis
      by (simp add: Cons.IH Let_def case_prod_beta dispatch_depth events_emit
          critical_depth_append)
  qed
qed

text \<open>
  Claim C9, as stated, fails: on a null result the loop does leave the critical section,
  by the call of \<^verbatim>\<open>exit_critical_section\<close> that precedes \<^verbatim>\<open>continue\<close>, before
  the next iteration enters it again. The log of a run whose primitive returns null once
  shows it: \<open>ExitCritical\<close> stands between the first call of the primitive and the
  \<open>EnterCritical\<close> of the second iteration, and after these first four calls the loop
  is in no critical section.
\<close>

theorem null_result_leaves_critical_section:
  "events (sm_wait_for_smcall sm_err_example [None]
      (sm_static_init (0, 0) zero_mem :: long sm_state))
     = [EnterCritical, ThreadYield, SchedNonsecure 0, ExitCritical,
        EnterCritical, ThreadYield, SchedNonsecure (- 4)]
   \<and> critical_depth (take 4 (events (sm_wait_for_smcall sm_err_example [None]
      (sm_static_init (0, 0) zero_mem :: long sm_state)))) = 0"
  by (simp add: sm_wait_for_smcall_def sm_static_init_def sm_err_example_def emit_def)

text \<open>
  Claim C9, amended. Take the loop blocked in a call of the primitive after any answers
  \<open>pre\<close>; it is then one critical section deeper than when the loop was entered. When
  that call returns null, the loop makes exactly four more calls before it blocks again:
  it leaves the critical section (and is then as deep as at loop entry), enters it
  again, yields, and calls the primitive with \<open>SM_ERR_UNEXPECTED_RESTART\<close>, again one
  critical section deep. No handler is called and nothing is logged in between.
\<close>

theorem null_result_iteration:
  "sm_wait_for_smcall E (pre @ [None]) s =
     emit [ExitCritical, EnterCritical, ThreadYield, SchedNonsecure (SM_ERR_UNEXPECTED_RESTART E)]
       (sm_wait_for_smcall E pre s)
   \<and> critical_depth (events (sm_wait_for_smcall E pre s)) = critical_depth (events s) + 1
   \<and> critical_depth (events (emit [ExitCritical] (sm_wait_for_smcall E pre s)))
       = critical_depth (events s)
   \<and> critical_depth (events (sm_wait_for_smcall E (pre @ [None]) s))
       = critical_depth (events s) + 1"
  by (simp add: sm_wait_for_smcall_def loop_snoc_None loop_blocks_inside events_emit
      critical_depth_append)

end
